theory Spec2Isabelle
  imports Main "HOL-Library.AList"
begin

section \<open>Data model\<close>

text \<open>
  Parsed JSON trees, as \<open>json.loads\<close> hands them to \<open>from_json\<close> and as \<open>to_json\<close>
  returns them: strings, integers, booleans, arrays and objects with string keys (in
  insertion order). Floats and \<open>null\<close> are outside the supported wire format and are
  not modelled.
\<close>

datatype json =
    JStr string
  | JInt int
  | JBool bool
  | JList "json list"
  | JDict "(string \<times> json) list"

text \<open>
  A schema is a Python value. \<open>isinstance(schema, (list, tuple))\<close> is one branch of the
  code, so lists and tuples share the constructor \<open>SList\<close>; \<open>SOther\<close> stands for every
  value that is none of list, tuple, str, int, bool (\<open>None\<close>, a float, a dict, ...).
\<close>

datatype schema =
    SList "schema list"
  | SStr string
  | SInt int
  | SBool bool
  | SOther

text \<open>The arguments of a \<open>typing.Literal[...]\<close>.\<close>

datatype lit = LStr string | LInt int | LBool bool

text \<open>
  Field types, as \<open>_field_from_json\<close> tells them apart: the three primitives,
  \<open>Literal[...]\<close>, \<open>Union[...]\<close>, \<open>List[t]\<close>, \<open>Tuple[...]\<close>, \<open>Dict[k, v]\<close>, a class
  made with \<open>serializer(schema)\<close> (its name, its \<open>_schema\<close> and its
  \<open>__annotations__\<close>, a dict in declaration order), and \<open>TOther\<close> for any other type
  object, which has no \<open>from_json\<close>. The classes of the model are those declared as
  \<open>class C(serializer(schema))\<close> with annotated fields and no default values, so that
  the fields of the dataclass are the annotations of the class, in their order. A
  class that inherits fields from another record class, gives a field a default or
  annotates a \<open>ClassVar\<close> has another \<open>__init__\<close> and is not a value of \<open>TRecord\<close>.
\<close>

datatype ftype =
    TStr
  | TInt
  | TBool
  | TLiteral "lit list"
  | TUnion "ftype list"
  | TList ftype
  | TTuple "ftype list"
  | TDict ftype ftype
  | TRecord string schema "(string \<times> ftype) list"
  | TOther

text \<open>
  Values held by the fields of an instance. Beside the JSON shapes there are tuples,
  dicts with keys of any kind, instances of serializer classes (the class as in
  \<open>TRecord\<close>, then the attribute values) and generator objects. A generator built by the
  tuple branch of \<open>_field_from_json\<close> is \<open>VGen ps\<close>: it holds the pairs
  \<open>(sub_j, sub_field_type)\<close> of the \<open>zip\<close> it will walk, and none of the calls it
  will make has run yet.
\<close>

datatype pykey = KStr string | KInt int

datatype pyval =
    VStr string
  | VInt int
  | VBool bool
  | VList "pyval list"
  | VTuple "pyval list"
  | VDict "(pykey \<times> pyval) list"
  | VObj string schema "(string \<times> ftype) list" "(string \<times> pyval) list"
  | VGen "(json \<times> ftype) list"

text \<open>
  Exceptions, one constructor per raising site:
  \<^item> \<open>LiteralSetMismatch\<close>: the \<open>TypeError\<close> of line 59;
  \<^item> \<open>UnionExhausted\<close>: the \<open>TypeError\<close> of line 67;
  \<^item> \<open>LiteralMismatch\<close>: the \<open>TypeError\<close> of lines 95-96;
  \<^item> \<open>SchemaJank\<close>: the \<open>TypeError\<close> of lines 46 and 101;
  \<^item> \<open>AssertionError\<close>: a failed \<open>assert\<close> (lines 24, 73, 78);
  \<^item> \<open>NotIterable\<close>: the \<open>TypeError\<close> Python raises for \<open>len\<close>, \<open>zip\<close> or \<open>for\<close> over
    an int or a bool;
  \<^item> \<open>AttributeError\<close>: a missing \<open>to_json\<close>, \<open>from_json\<close> or attribute;
  \<^item> \<open>ConstructorMismatch\<close>: the \<open>TypeError\<close> of the dataclass \<open>__init__\<close> for a
    missing or unexpected keyword.
\<close>

datatype error =
    LiteralSetMismatch
  | UnionExhausted
  | LiteralMismatch
  | SchemaJank
  | AssertionError
  | NotIterable
  | AttributeError
  | ConstructorMismatch

type_synonym annotations = "(string \<times> ftype) list"
type_synonym bindings = "(string \<times> pyval) list"

section \<open>Python built-ins the code relies on\<close>

text \<open>A JSON value seen as a Python value: the same object, nothing converted.\<close>

fun of_json :: "json \<Rightarrow> pyval"
  and of_json_list :: "json list \<Rightarrow> pyval list"
  and of_json_items :: "(string \<times> json) list \<Rightarrow> (pykey \<times> pyval) list" where
  "of_json (JStr s) = VStr s"
| "of_json (JInt i) = VInt i"
| "of_json (JBool b) = VBool b"
| "of_json (JList js) = VList (of_json_list js)"
| "of_json (JDict kvs) = VDict (of_json_items kvs)"
| "of_json_list [] = []"
| "of_json_list (j # js) = of_json j # of_json_list js"
| "of_json_items [] = []"
| "of_json_items ((k, j) # kvs) = (KStr k, of_json j) # of_json_items kvs"

text \<open>
  Iterating a value (\<open>for sub_j in j\<close>, \<open>zip(j, ...)\<close>): a list gives its elements, a
  string its characters as one-character strings, a dict its keys; an int or a bool
  raises.
\<close>

fun py_iter :: "json \<Rightarrow> error + json list" where
  "py_iter (JList js) = Inr js"
| "py_iter (JStr s) = Inr (map (\<lambda>c. JStr [c]) s)"
| "py_iter (JDict kvs) = Inr (map (\<lambda>kv. JStr (fst kv)) kvs)"
| "py_iter (JInt i) = Inl NotIterable"
| "py_iter (JBool b) = Inl NotIterable"

fun py_len :: "json \<Rightarrow> error + nat" where
  "py_len (JList js) = Inr (length js)"
| "py_len (JStr s) = Inr (length s)"
| "py_len (JDict kvs) = Inr (length kvs)"
| "py_len (JInt i) = Inl NotIterable"
| "py_len (JBool b) = Inl NotIterable"

text \<open>
  \<open>j == a\<close> for a Literal argument \<open>a\<close>: strings equal strings, and \<open>bool\<close> is a
  subclass of \<open>int\<close> with \<open>True == 1\<close> and \<open>False == 0\<close>.
\<close>

fun int_of_bool :: "bool \<Rightarrow> int" where
  "int_of_bool True = 1"
| "int_of_bool False = 0"

fun py_eq_lit :: "json \<Rightarrow> lit \<Rightarrow> bool" where
  "py_eq_lit (JStr s) (LStr t) = (s = t)"
| "py_eq_lit (JInt i) (LInt k) = (i = k)"
| "py_eq_lit (JInt i) (LBool b) = (i = int_of_bool b)"
| "py_eq_lit (JBool b) (LInt k) = (int_of_bool b = k)"
| "py_eq_lit (JBool b) (LBool c) = (b = c)"
| "py_eq_lit _ _ = False"

text \<open>
  \<open>d.update(m)\<close> on dicts kept as association lists in insertion order, and
  \<open>dict(ChainMap(*maps))\<close>: the keys of the maps from the last map to the first, each
  with the value of the first map that has it, which is what updating an empty dict
  with the maps from last to first builds.
\<close>

definition dict_update :: "('k \<times> 'v) list \<Rightarrow> ('k \<times> 'v) list \<Rightarrow> ('k \<times> 'v) list" where
  "dict_update d m = fold (\<lambda>kv. AList.update (fst kv) (snd kv)) m d"

fun dict_ChainMap :: "('k \<times> 'v) list list \<Rightarrow> ('k \<times> 'v) list" where
  "dict_ChainMap [] = []"
| "dict_ChainMap (m # ms) = dict_update (dict_ChainMap ms) m"

text \<open>
  The \<open>__init__\<close> that \<open>dataclass\<close> generates for a class of the model (declared
  directly on \<open>serializer(schema)\<close>, every annotation a field without a default),
  called with keyword arguments: its parameters are the annotated names, every one
  must be given and no other keyword may be. For a class with inherited fields or
  defaults the parameters are not the class's own annotations, and this definition
  does not describe its constructor.
\<close>

fun init_fields :: "annotations \<Rightarrow> bindings \<Rightarrow> error + (string \<times> pyval) list" where
  "init_fields [] b = Inr []"
| "init_fields (f # fs) b =
     (case map_of b (fst f) of
        None \<Rightarrow> Inl ConstructorMismatch
      | Some v \<Rightarrow>
          (case init_fields fs b of
             Inl e \<Rightarrow> Inl e
           | Inr vs \<Rightarrow> Inr ((fst f, v) # vs)))"

definition construct :: "string \<Rightarrow> schema \<Rightarrow> annotations \<Rightarrow> bindings \<Rightarrow> error + pyval" where
  "construct name sch fields b =
     (if list_all (\<lambda>k. map_of fields k \<noteq> None) (map fst b)
      then (case init_fields fields b of
              Inl e \<Rightarrow> Inl e
            | Inr vs \<Rightarrow> Inr (VObj name sch fields vs))
      else Inl ConstructorMismatch)"

section \<open>Deserialisation\<close>

text \<open>
  \<open>_field_from_json\<close> and \<open>_from_json_with_match\<close> call each other through
  \<open>field_type.from_json(j)\<close>. The loop over the alternatives of a union
  (\<open>union_from_json\<close>), the list comprehension of the list branch (\<open>list_from_json\<close>)
  and the comprehension over \<open>zip(j, schema)\<close> (\<open>match_zip\<close>) are the three list
  recursions. The tuple branch returns a generator expression: only \<open>len(j)\<close>, the
  \<open>assert\<close> and \<open>zip(j, field_type.__args__)\<close> run in the call.
\<close>

text \<open>
  A value looked up in an association list is smaller than the list: the measure
  behind the recursion through \<open>fields[schema]\<close> and \<open>getattr(obj, schema)\<close>.
\<close>

lemma map_of_size_less:
  "map_of kvs k = Some v \<Longrightarrow> f v < size_list (size_prod (\<lambda>_. 0) f) kvs"
  by (induction kvs) (auto split: if_splits)

function field_from_json :: "json \<Rightarrow> ftype \<Rightarrow> error + pyval"
  and union_from_json :: "json \<Rightarrow> ftype list \<Rightarrow> error + pyval"
  and list_from_json :: "json list \<Rightarrow> ftype \<Rightarrow> error + pyval list"
  and from_json_with_match :: "json \<Rightarrow> schema \<Rightarrow> annotations \<Rightarrow> error + bindings"
  and match_zip :: "json list \<Rightarrow> schema list \<Rightarrow> annotations \<Rightarrow> error + bindings list" where
  "field_from_json j TStr = Inr (of_json j)"
| "field_from_json j TInt = Inr (of_json j)"
| "field_from_json j TBool = Inr (of_json j)"
| "field_from_json j (TLiteral args) =
     (if list_ex (py_eq_lit j) args then Inr (of_json j) else Inl LiteralSetMismatch)"
| "field_from_json j (TUnion ts) = union_from_json j ts"
| "field_from_json j (TList t) =
     (case py_iter j of
        Inl e \<Rightarrow> Inl e
      | Inr js \<Rightarrow>
          (case list_from_json js t of
             Inl e \<Rightarrow> Inl e
           | Inr vs \<Rightarrow> Inr (VList vs)))"
| "field_from_json j (TTuple ts) =
     (case py_len j of
        Inl e \<Rightarrow> Inl e
      | Inr n \<Rightarrow>
          if n = length ts
          then (case py_iter j of
                  Inl e \<Rightarrow> Inl e
                | Inr js \<Rightarrow> Inr (VGen (zip js ts)))
          else Inl AssertionError)"
| "field_from_json j (TDict kt vt) = Inl AssertionError"
| "field_from_json j (TRecord name sch fields) =
     (case from_json_with_match j sch fields of
        Inl e \<Rightarrow> Inl e
      | Inr b \<Rightarrow> construct name sch fields b)"
| "field_from_json j TOther = Inl AttributeError"
| "union_from_json j [] = Inl UnionExhausted"
| "union_from_json j (t # ts) =
     (case field_from_json j t of
        Inr v \<Rightarrow> Inr v
      | Inl e \<Rightarrow> union_from_json j ts)"
| "list_from_json [] t = Inr []"
| "list_from_json (j # js) t =
     (case field_from_json j t of
        Inl e \<Rightarrow> Inl e
      | Inr v \<Rightarrow>
          (case list_from_json js t of
             Inl e \<Rightarrow> Inl e
           | Inr vs \<Rightarrow> Inr (v # vs)))"
| "from_json_with_match j (SList subs) fields =
     (case py_iter j of
        Inl e \<Rightarrow> Inl e
      | Inr js \<Rightarrow>
          (case match_zip js subs fields of
             Inl e \<Rightarrow> Inl e
           | Inr bs \<Rightarrow> Inr (dict_ChainMap bs)))"
| "from_json_with_match j (SStr s) fields =
     (case map_of fields s of
        Some t \<Rightarrow>
          (case field_from_json j t of
             Inl e \<Rightarrow> Inl e
           | Inr v \<Rightarrow> Inr [(s, v)])
      | None \<Rightarrow> if j = JStr s then Inr [] else Inl LiteralMismatch)"
| "from_json_with_match j (SInt i) fields = Inr []"
| "from_json_with_match j (SBool b) fields = Inr []"
| "from_json_with_match j SOther fields = Inl SchemaJank"
| "match_zip [] subs fields = Inr []"
| "match_zip (j # js) [] fields = Inr []"
| "match_zip (j # js) (sub # subs) fields =
     (case from_json_with_match j sub fields of
        Inl e \<Rightarrow> Inl e
      | Inr b \<Rightarrow>
          (case match_zip js subs fields of
             Inl e \<Rightarrow> Inl e
           | Inr bs \<Rightarrow> Inr (b # bs)))"
  by pat_completeness auto

termination
  apply (relation "inv_image (less_than <*lex*> less_than)
    (\<lambda>x. case x of
       Inl (Inl (j, t)) \<Rightarrow> (size t, 0)
     | Inl (Inr (j, ts)) \<Rightarrow> (size_list size ts, length ts + 1)
     | Inr (Inl (js, t)) \<Rightarrow> (size t, length js + 1)
     | Inr (Inr (Inl (j, sch, fields))) \<Rightarrow>
         (size_list (size_prod (\<lambda>_. 0) size) fields, 2 * size sch + 2)
     | Inr (Inr (Inr (js, subs, fields))) \<Rightarrow>
         (size_list (size_prod (\<lambda>_. 0) size) fields, 2 * size_list size subs + 1))")
  apply (auto dest: map_of_size_less [where f = size])
  done

text \<open>The class method \<open>from_json\<close> of the class with the given name, schema and annotations.\<close>

definition from_json :: "string \<Rightarrow> schema \<Rightarrow> annotations \<Rightarrow> json \<Rightarrow> error + pyval" where
  "from_json name sch fields j =
     (case from_json_with_match j sch fields of
        Inl e \<Rightarrow> Inl e
      | Inr b \<Rightarrow> construct name sch fields b)"

text \<open>
  What iterating a generator of the tuple branch yields: the calls
  \<open>_field_from_json(sub_j, sub_field_type)\<close> in order, up to the first that raises.
\<close>

fun gen_items :: "(json \<times> ftype) list \<Rightarrow> error + pyval list" where
  "gen_items [] = Inr []"
| "gen_items (p # ps) =
     (case field_from_json (fst p) (snd p) of
        Inl e \<Rightarrow> Inl e
      | Inr v \<Rightarrow>
          (case gen_items ps of
             Inl e \<Rightarrow> Inl e
           | Inr vs \<Rightarrow> Inr (v # vs)))"

section \<open>Serialisation\<close>

text \<open>
  \<open>_fields_to_json\<close> and \<open>_to_json_with_match\<close>; the object \<open>obj\<close> is passed as its
  class annotations and its attribute values. A generator has no \<open>to_json\<close>.
\<close>

fun is_str_key :: "pykey \<Rightarrow> bool" where
  "is_str_key (KStr s) = True"
| "is_str_key (KInt i) = False"

function fields_to_json :: "pyval \<Rightarrow> error + json"
  and fields_to_json_list :: "pyval list \<Rightarrow> error + json list"
  and fields_to_json_items :: "(pykey \<times> pyval) list \<Rightarrow> error + (string \<times> json) list"
  and to_json_with_match :: "schema \<Rightarrow> annotations \<Rightarrow> (string \<times> pyval) list \<Rightarrow> error + json"
  and to_json_with_match_list ::
    "schema list \<Rightarrow> annotations \<Rightarrow> (string \<times> pyval) list \<Rightarrow> error + json list" where
  "fields_to_json (VStr s) = Inr (JStr s)"
| "fields_to_json (VInt i) = Inr (JInt i)"
| "fields_to_json (VBool b) = Inr (JBool b)"
| "fields_to_json (VList vs) =
     (case fields_to_json_list vs of Inl e \<Rightarrow> Inl e | Inr js \<Rightarrow> Inr (JList js))"
| "fields_to_json (VTuple vs) =
     (case fields_to_json_list vs of Inl e \<Rightarrow> Inl e | Inr js \<Rightarrow> Inr (JList js))"
| "fields_to_json (VDict kvs) =
     (if list_all (\<lambda>kv. is_str_key (fst kv)) kvs
      then (case fields_to_json_items kvs of Inl e \<Rightarrow> Inl e | Inr js \<Rightarrow> Inr (JDict js))
      else Inl AssertionError)"
| "fields_to_json (VObj name sch fields vals) = to_json_with_match sch fields vals"
| "fields_to_json (VGen ps) = Inl AttributeError"
| "fields_to_json_list [] = Inr []"
| "fields_to_json_list (v # vs) =
     (case fields_to_json v of
        Inl e \<Rightarrow> Inl e
      | Inr j \<Rightarrow>
          (case fields_to_json_list vs of
             Inl e \<Rightarrow> Inl e
           | Inr js \<Rightarrow> Inr (j # js)))"
| "fields_to_json_items [] = Inr []"
| "fields_to_json_items ((KInt i, v) # kvs) = Inl AssertionError"
| "fields_to_json_items ((KStr k, v) # kvs) =
     (case fields_to_json v of
        Inl e \<Rightarrow> Inl e
      | Inr j \<Rightarrow>
          (case fields_to_json_items kvs of
             Inl e \<Rightarrow> Inl e
           | Inr js \<Rightarrow> Inr ((k, j) # js)))"
| "to_json_with_match (SList subs) fields vals =
     (case to_json_with_match_list subs fields vals of
        Inl e \<Rightarrow> Inl e
      | Inr js \<Rightarrow> Inr (JList js))"
| "to_json_with_match (SStr s) fields vals =
     (if map_of fields s \<noteq> None
      then (case map_of vals s of
              None \<Rightarrow> Inl AttributeError
            | Some v \<Rightarrow> fields_to_json v)
      else Inr (JStr s))"
| "to_json_with_match (SInt i) fields vals = Inr (JInt i)"
| "to_json_with_match (SBool b) fields vals = Inr (JBool b)"
| "to_json_with_match SOther fields vals = Inl SchemaJank"
| "to_json_with_match_list [] fields vals = Inr []"
| "to_json_with_match_list (sub # subs) fields vals =
     (case to_json_with_match sub fields vals of
        Inl e \<Rightarrow> Inl e
      | Inr j \<Rightarrow>
          (case to_json_with_match_list subs fields vals of
             Inl e \<Rightarrow> Inl e
           | Inr js \<Rightarrow> Inr (j # js)))"
  by pat_completeness auto

termination
  apply (relation "inv_image (less_than <*lex*> less_than)
    (\<lambda>x. case x of
       Inl (Inl v) \<Rightarrow> (size v, 0)
     | Inl (Inr vs) \<Rightarrow> (size_list size vs, 1)
     | Inr (Inl kvs) \<Rightarrow> (size_list (size_prod (\<lambda>_. 0) size) kvs, 1)
     | Inr (Inr (Inl (sch, fields, vals))) \<Rightarrow>
         (size_list (size_prod (\<lambda>_. 0) size) vals, 2 * size sch + 2)
     | Inr (Inr (Inr (subs, fields, vals))) \<Rightarrow>
         (size_list (size_prod (\<lambda>_. 0) size) vals, 2 * size_list size subs + 1))")
  apply (auto dest: map_of_size_less [where f = size])
  done

text \<open>The method \<open>to_json\<close> of an instance; no other value of the model has it.\<close>

fun to_json :: "pyval \<Rightarrow> error + json" where
  "to_json (VObj name sch fields vals) = to_json_with_match sch fields vals"
| "to_json v = Inl AttributeError"

section \<open>Equality of values\<close>

text \<open>
  \<open>x == y\<close> on field values. Numbers compare by value (\<open>True == 1\<close>), lists with
  lists and tuples with tuples element by element, dicts by their keys and the values
  under them. The \<open>__eq__\<close> that \<open>dataclass\<close> generates holds when both sides are
  instances of the same class and their fields, taken in declaration order, are equal.
  A generator object equals only itself; the comparisons made here have a value just
  built by \<open>from_json\<close> on one side, so a generator on either side is never the
  object on the other side.
\<close>

function py_eq :: "pyval \<Rightarrow> pyval \<Rightarrow> bool"
  and py_eq_list :: "pyval list \<Rightarrow> pyval list \<Rightarrow> bool"
  and py_eq_items :: "(pykey \<times> pyval) list \<Rightarrow> (pykey \<times> pyval) list \<Rightarrow> bool"
  and py_eq_fields :: "(string \<times> pyval) list \<Rightarrow> (string \<times> pyval) list \<Rightarrow> bool" where
  "py_eq (VStr s) y = (case y of VStr t \<Rightarrow> s = t | _ \<Rightarrow> False)"
| "py_eq (VInt i) y =
     (case y of VInt k \<Rightarrow> i = k | VBool b \<Rightarrow> i = int_of_bool b | _ \<Rightarrow> False)"
| "py_eq (VBool b) y =
     (case y of VInt k \<Rightarrow> int_of_bool b = k | VBool c \<Rightarrow> b = c | _ \<Rightarrow> False)"
| "py_eq (VList xs) y = (case y of VList ys \<Rightarrow> py_eq_list xs ys | _ \<Rightarrow> False)"
| "py_eq (VTuple xs) y = (case y of VTuple ys \<Rightarrow> py_eq_list xs ys | _ \<Rightarrow> False)"
| "py_eq (VDict xs) y =
     (case y of VDict ys \<Rightarrow> length xs = length ys \<and> py_eq_items xs ys | _ \<Rightarrow> False)"
| "py_eq (VObj name sch fields vals) y =
     (case y of
        VObj name' sch' fields' vals' \<Rightarrow>
          name = name' \<and> sch = sch' \<and> fields = fields' \<and> py_eq_fields vals vals'
      | _ \<Rightarrow> False)"
| "py_eq (VGen ps) y = False"
| "py_eq_list [] ys = (ys = [])"
| "py_eq_list (x # xs) ys =
     (case ys of [] \<Rightarrow> False | y # ys' \<Rightarrow> py_eq x y \<and> py_eq_list xs ys')"
| "py_eq_items [] ys = True"
| "py_eq_items (kv # xs) ys =
     ((case map_of ys (fst kv) of None \<Rightarrow> False | Some w \<Rightarrow> py_eq (snd kv) w)
      \<and> py_eq_items xs ys)"
| "py_eq_fields [] gs = (gs = [])"
| "py_eq_fields (f # fs) gs =
     (case gs of [] \<Rightarrow> False | g # gs' \<Rightarrow> py_eq (snd f) (snd g) \<and> py_eq_fields fs gs')"
  by pat_completeness auto

termination
  apply (relation "measure
    (\<lambda>x. case x of
       Inl (Inl (v, w)) \<Rightarrow> size v
     | Inl (Inr (vs, ws)) \<Rightarrow> size_list size vs
     | Inr (Inl (kvs, kws)) \<Rightarrow> size_list (size_prod (\<lambda>_. 0) size) kvs
     | Inr (Inr (fs, gs)) \<Rightarrow> size_list (size_prod (\<lambda>_. 0) size) fs)")
  apply auto
  done

section \<open>Instances that conform to their class\<close>

text \<open>
  A schema without a leaf of an unsupported kind, and the strings at its leaves.
\<close>

fun schema_ok :: "schema \<Rightarrow> bool" where
  "schema_ok (SList subs) = list_all schema_ok subs"
| "schema_ok SOther = False"
| "schema_ok _ = True"

fun schema_strs :: "schema \<Rightarrow> string list" where
  "schema_strs (SList subs) = concat (map schema_strs subs)"
| "schema_strs (SStr s) = [s]"
| "schema_strs _ = []"

text \<open>
  \<open>conforms v t\<close>: the value \<open>v\<close> is a value of the field type \<open>t\<close> as the type
  reads: a string for \<open>str\<close>, an int for \<open>int\<close>, a bool for \<open>bool\<close>, one of the listed
  values for a \<open>Literal\<close>, a list of conforming values for \<open>List[t]\<close>, for a union a
  value of one alternative whose JSON no earlier alternative accepts, and for a
  serializer class an instance of it whose attributes are its annotated fields, each
  conforming to its annotation, with a schema that names every field (a class of
  the model: no inherited fields, no defaults). There is no rule for \<open>Tuple\<close>,
  \<open>Dict\<close> or other types.
\<close>

inductive conforms :: "pyval \<Rightarrow> ftype \<Rightarrow> bool" where
  c_str: "conforms (VStr s) TStr"
| c_int: "conforms (VInt i) TInt"
| c_bool: "conforms (VBool b) TBool"
| c_lit_str: "LStr s \<in> set args \<Longrightarrow> conforms (VStr s) (TLiteral args)"
| c_lit_int: "LInt i \<in> set args \<Longrightarrow> conforms (VInt i) (TLiteral args)"
| c_lit_bool: "LBool b \<in> set args \<Longrightarrow> conforms (VBool b) (TLiteral args)"
| c_list: "\<forall>v\<in>set vs. conforms v t \<Longrightarrow> conforms (VList vs) (TList t)"
| c_union: "\<lbrakk>i < length ts; conforms v (ts ! i); fields_to_json v = Inr j;
             \<forall>k<i. isl (field_from_json j (ts ! k))\<rbrakk> \<Longrightarrow> conforms v (TUnion ts)"
| c_record: "\<lbrakk>schema_ok sch; distinct (map fst fields); map fst vals = map fst fields;
              set (map fst fields) \<subseteq> set (schema_strs sch);
              \<forall>i<length fields. conforms (snd (vals ! i)) (snd (fields ! i))\<rbrakk>
             \<Longrightarrow> conforms (VObj name sch fields vals) (TRecord name sch fields)"

text \<open>
  The bindings the leaves of a list of sub-schemas produce from an instance: every
  annotated name among the leaves, with the instance's value.
\<close>

definition bound_by ::
  "schema list \<Rightarrow> annotations \<Rightarrow> (string \<times> pyval) list \<Rightarrow> string \<Rightarrow> pyval option" where
  "bound_by subs fields vals k =
     (if k \<in> set (concat (map schema_strs subs)) \<and> map_of fields k \<noteq> None
      then map_of vals k else None)"

section \<open>The type coercer\<close>

text \<open>
  \<open>of_json\<close> changes nothing: rendering the Python value gives the JSON value back,
  so two JSON values with the same image are the same. A nested serializer type is
  coerced by its \<open>from_json\<close>.
\<close>

lemma fields_to_json_of_json:
  "fields_to_json (of_json j) = Inr j"
  "fields_to_json_list (of_json_list js) = Inr js"
  "list_all (\<lambda>kv. is_str_key (fst kv)) (of_json_items kvs) \<and>
   fields_to_json_items (of_json_items kvs) = Inr kvs"
  by (induction j and js and kvs rule: of_json_of_json_list_of_json_items.induct) simp_all

lemma of_json_inject: "of_json j = of_json j' \<Longrightarrow> j = j'"
  by (metis fields_to_json_of_json(1) sum.inject(2))

lemma field_from_json_TRecord:
  "field_from_json j (TRecord name sch fields) = from_json name sch fields j"
  by (simp add: from_json_def)

text \<open>
  Claim C10. For every JSON value, coercing against \<open>str\<close>, \<open>int\<close> or \<open>bool\<close> returns
  the value itself, whatever its kind; an integer is accepted where \<open>str\<close> was
  declared.
\<close>

theorem primitive_returned_unchecked:
  "field_from_json j TStr = Inr (of_json j)
   \<and> field_from_json j TInt = Inr (of_json j)
   \<and> field_from_json j TBool = Inr (of_json j)
   \<and> field_from_json (JInt n) TStr = Inr (VInt n)"
  by simp

text \<open>
  Claim C8. Coercing any JSON value against a \<open>Dict[...]\<close> field type fails, always
  with the same error (the \<open>assert False\<close> of line 78).
\<close>

theorem dict_field_type_always_fails:
  "field_from_json j (TDict kt vt) = Inl AssertionError"
  by simp

text \<open>
  Claim C5. Coercing a JSON array against \<open>Tuple[...]\<close> fails when the array's length
  is not the number of element types; \<open>Tuple[int, int]\<close> fails on a 3-element array.
\<close>

theorem tuple_arity_mismatch_fails:
  "length js \<noteq> length ts \<Longrightarrow> field_from_json (JList js) (TTuple ts) = Inl AssertionError"
  by simp

theorem tuple_arity_mismatch_fails_witness:
  "length [JInt 1, JInt 2, JInt 3] \<noteq> length [TInt, TInt]
   \<and> field_from_json (JList [JInt 1, JInt 2, JInt 3]) (TTuple [TInt, TInt]) = Inl AssertionError"
proof -
  have h: "length [JInt 1, JInt 2, JInt 3] \<noteq> length [TInt, TInt]" by simp
  show ?thesis using h tuple_arity_mismatch_fails [OF h] by simp
qed

subsection \<open>Unions\<close>

lemma union_from_json_all_fail:
  "\<forall>t\<in>set ts. isl (field_from_json j t) \<Longrightarrow> union_from_json j ts = Inl UnionExhausted"
  by (induction ts) (auto split: sum.splits)

lemma union_from_json_fails:
  "isl (union_from_json j ts) \<Longrightarrow> \<forall>t\<in>set ts. isl (field_from_json j t)"
  by (induction ts) (auto split: sum.splits)

lemma union_from_json_first:
  "\<lbrakk>i < length ts; \<forall>k<i. isl (field_from_json j (ts ! k)); \<not> isl (field_from_json j (ts ! i))\<rbrakk>
   \<Longrightarrow> union_from_json j ts = field_from_json j (ts ! i)"
proof (induction ts arbitrary: i)
  case Nil
  then show ?case by simp
next
  case (Cons t ts)
  show ?case
  proof (cases i)
    case 0
    then show ?thesis using Cons.prems(3) by (auto split: sum.splits)
  next
    case (Suc n)
    have "isl (field_from_json j t)" using Cons.prems(2) Suc by auto
    moreover have "union_from_json j ts = field_from_json j (ts ! n)"
    proof (rule Cons.IH)
      show "n < length ts" using Cons.prems(1) Suc by simp
      show "\<forall>k<n. isl (field_from_json j (ts ! k))"
      proof (intro allI impI)
        fix k assume "k < n"
        then have "Suc k < i" using Suc by simp
        then have "isl (field_from_json j ((t # ts) ! Suc k))" using Cons.prems(2) by blast
        then show "isl (field_from_json j (ts ! k))" by simp
      qed
      show "\<not> isl (field_from_json j (ts ! n))" using Cons.prems(3) Suc by simp
    qed
    ultimately show ?thesis using Suc by (auto split: sum.splits)
  qed
qed

text \<open>
  Claim C6. Coercing against a union returns what the first alternative that succeeds
  returns, the alternatives being tried in declared order; it fails with
  \<open>UnionExhausted\<close> when every alternative fails, and it fails only then. A call counts
  as successful when it returns: the tuple branch returns its generator before any
  element is coerced.
\<close>

theorem union_first_success:
  "(\<forall>i<length ts.
      (\<forall>k<i. isl (field_from_json j (ts ! k))) \<and> \<not> isl (field_from_json j (ts ! i))
      \<longrightarrow> field_from_json j (TUnion ts) = field_from_json j (ts ! i))
   \<and> ((\<forall>t\<in>set ts. isl (field_from_json j t))
        \<longrightarrow> field_from_json j (TUnion ts) = Inl UnionExhausted)
   \<and> (isl (field_from_json j (TUnion ts)) \<longrightarrow> (\<forall>t\<in>set ts. isl (field_from_json j t)))"
  using union_from_json_first [of _ ts j] union_from_json_all_fail [of ts j]
    union_from_json_fails [of j ts]
  by simp

theorem union_first_success_witness:
  "field_from_json (JInt 1) (TUnion [TLiteral [LInt 0, LInt 1], TLiteral [LInt 1, LInt 2]])
     = field_from_json (JInt 1) (TLiteral [LInt 0, LInt 1])
   \<and> \<not> isl (field_from_json (JInt 1) (TLiteral [LInt 0, LInt 1]))
   \<and> \<not> isl (field_from_json (JInt 1) (TLiteral [LInt 1, LInt 2]))
   \<and> field_from_json (JInt 2) (TUnion [TLiteral [LInt 0, LInt 1], TLiteral [LInt 1, LInt 2]])
     = field_from_json (JInt 2) (TLiteral [LInt 1, LInt 2])
   \<and> isl (field_from_json (JInt 2) (TLiteral [LInt 0, LInt 1]))
   \<and> field_from_json (JInt 5) (TUnion [TLiteral [LInt 0, LInt 1], TLiteral [LInt 1, LInt 2]])
     = Inl UnionExhausted"
proof -
  let ?ts = "[TLiteral [LInt 0, LInt 1], TLiteral [LInt 1, LInt 2]]"
  have a0: "(0::nat) < length ?ts" and a1: "(1::nat) < length ?ts" by simp_all
  have p0: "(\<forall>k<(0::nat). isl (field_from_json (JInt 1) (?ts ! k)))
            \<and> \<not> isl (field_from_json (JInt 1) (?ts ! 0))" by simp
  have p1: "(\<forall>k<(1::nat). isl (field_from_json (JInt 2) (?ts ! k)))
            \<and> \<not> isl (field_from_json (JInt 2) (?ts ! 1))" by simp
  have p2: "\<forall>t\<in>set ?ts. isl (field_from_json (JInt 5) t)" by simp
  from union_first_success [of ?ts "JInt 1"] a0 p0
  have r0: "field_from_json (JInt 1) (TUnion ?ts) = field_from_json (JInt 1) (?ts ! 0)" by blast
  from union_first_success [of ?ts "JInt 2"] a1 p1
  have r1: "field_from_json (JInt 2) (TUnion ?ts) = field_from_json (JInt 2) (?ts ! 1)" by blast
  from union_first_success [of ?ts "JInt 5"] p2
  have r2: "field_from_json (JInt 5) (TUnion ?ts) = Inl UnionExhausted" by blast
  show ?thesis using r0 r1 r2 p0 p1 by simp
qed

section \<open>The schema matcher\<close>

text \<open>
  Claim C9 as stated: with the schema \<open>["kind_a", "value"]\<close>, \<open>value\<close> a declared
  field and \<open>kind_a\<close> not one, \<open>from_json\<close> accepts \<open>["kind_a", 5]\<close>. It does not for
  every such class: with \<open>value: Literal[1]\<close> the coercion of \<open>5\<close> raises the
  \<open>TypeError\<close> of line 59, and with a second field \<open>note: str\<close> the constructor
  is called without \<open>note\<close> and raises.
\<close>

theorem literal_discrimination_counterexample:
  "map_of [(''value'', TLiteral [LInt 1])] ''kind_a'' = None
   \<and> map_of [(''value'', TLiteral [LInt 1])] ''value'' = Some (TLiteral [LInt 1])
   \<and> from_json ''Tagged'' (SList [SStr ''kind_a'', SStr ''value''])
         [(''value'', TLiteral [LInt 1])] (JList [JStr ''kind_a'', JInt 5])
       = Inl LiteralSetMismatch
   \<and> map_of [(''value'', TInt), (''note'', TStr)] ''kind_a'' = None
   \<and> map_of [(''value'', TInt), (''note'', TStr)] ''value'' = Some TInt
   \<and> from_json ''Tagged'' (SList [SStr ''kind_a'', SStr ''value''])
         [(''value'', TInt), (''note'', TStr)] (JList [JStr ''kind_a'', JInt 5])
       = Inl ConstructorMismatch"
  by (simp add: from_json_def construct_def dict_update_def)

text \<open>
  Claim C9, amended. With the schema \<open>["kind_a", "value"]\<close>, \<open>value\<close> a declared field
  and \<open>kind_a\<close> not one, \<open>from_json\<close> rejects \<open>["kind_b", 5]\<close> with the literal mismatch
  of lines 95-96. On \<open>["kind_a", 5]\<close> the literal matches: when the type of \<open>value\<close>
  accepts \<open>5\<close> the matcher returns the single binding of \<open>value\<close> to the coercion of
  \<open>5\<close>, and when it rejects \<open>5\<close> \<open>from_json\<close> fails with the coercion's error. For the
  class whose only field is \<open>value: int\<close>, \<open>from_json\<close> accepts \<open>["kind_a", 5]\<close> and
  builds the instance with \<open>value = 5\<close>.
\<close>

theorem literal_discrimination:
  assumes "map_of fields ''kind_a'' = None" and "map_of fields ''value'' = Some t"
  shows "from_json name (SList [SStr ''kind_a'', SStr ''value'']) fields
           (JList [JStr ''kind_b'', JInt 5]) = Inl LiteralMismatch
         \<and> (\<forall>v. field_from_json (JInt 5) t = Inr v \<longrightarrow>
              from_json_with_match (JList [JStr ''kind_a'', JInt 5])
                (SList [SStr ''kind_a'', SStr ''value'']) fields = Inr [(''value'', v)])
         \<and> (\<forall>e. field_from_json (JInt 5) t = Inl e \<longrightarrow>
              from_json name (SList [SStr ''kind_a'', SStr ''value'']) fields
                (JList [JStr ''kind_a'', JInt 5]) = Inl e)
         \<and> from_json ''Tagged'' (SList [SStr ''kind_a'', SStr ''value'']) [(''value'', TInt)]
              (JList [JStr ''kind_a'', JInt 5])
            = Inr (VObj ''Tagged'' (SList [SStr ''kind_a'', SStr ''value''])
                     [(''value'', TInt)] [(''value'', VInt 5)])"
proof (intro conjI allI impI)
  show "from_json name (SList [SStr ''kind_a'', SStr ''value'']) fields
          (JList [JStr ''kind_b'', JInt 5]) = Inl LiteralMismatch"
    using assms by (simp add: from_json_def)
next
  fix v assume "field_from_json (JInt 5) t = Inr v"
  then show "from_json_with_match (JList [JStr ''kind_a'', JInt 5])
               (SList [SStr ''kind_a'', SStr ''value'']) fields = Inr [(''value'', v)]"
    using assms by (simp add: dict_update_def)
next
  fix e assume "field_from_json (JInt 5) t = Inl e"
  then show "from_json name (SList [SStr ''kind_a'', SStr ''value'']) fields
               (JList [JStr ''kind_a'', JInt 5]) = Inl e"
    using assms by (simp add: from_json_def)
next
  show "from_json ''Tagged'' (SList [SStr ''kind_a'', SStr ''value'']) [(''value'', TInt)]
          (JList [JStr ''kind_a'', JInt 5])
        = Inr (VObj ''Tagged'' (SList [SStr ''kind_a'', SStr ''value''])
                 [(''value'', TInt)] [(''value'', VInt 5)])"
    by (simp add: from_json_def construct_def dict_update_def)
qed

theorem literal_discrimination_witness:
  "from_json ''Tagged'' (SList [SStr ''kind_a'', SStr ''value'']) [(''value'', TInt)]
     (JList [JStr ''kind_b'', JInt 5]) = Inl LiteralMismatch
   \<and> from_json_with_match (JList [JStr ''kind_a'', JInt 5])
       (SList [SStr ''kind_a'', SStr ''value'']) [(''value'', TInt)] = Inr [(''value'', VInt 5)]
   \<and> from_json ''Tagged'' (SList [SStr ''kind_a'', SStr ''value''])
       [(''value'', TLiteral [LInt 1])] (JList [JStr ''kind_a'', JInt 5])
     = Inl LiteralSetMismatch
   \<and> from_json ''Tagged'' (SList [SStr ''kind_a'', SStr ''value'']) [(''value'', TInt)]
       (JList [JStr ''kind_a'', JInt 5])
     = Inr (VObj ''Tagged'' (SList [SStr ''kind_a'', SStr ''value''])
              [(''value'', TInt)] [(''value'', VInt 5)])"
proof -
  have a1: "map_of [(''value'', TInt)] ''kind_a'' = None" by simp
  have a2: "map_of [(''value'', TInt)] ''value'' = Some TInt" by simp
  have a3: "field_from_json (JInt 5) TInt = Inr (VInt 5)" by simp
  have b1: "map_of [(''value'', TLiteral [LInt 1])] ''kind_a'' = None" by simp
  have b2: "map_of [(''value'', TLiteral [LInt 1])] ''value'' = Some (TLiteral [LInt 1])"
    by simp
  have b3: "field_from_json (JInt 5) (TLiteral [LInt 1]) = Inl LiteralSetMismatch" by simp
  from literal_discrimination [OF a1 a2, of "''Tagged''"] a3
  have accept: "from_json ''Tagged'' (SList [SStr ''kind_a'', SStr ''value''])
        [(''value'', TInt)] (JList [JStr ''kind_b'', JInt 5]) = Inl LiteralMismatch"
    "from_json_with_match (JList [JStr ''kind_a'', JInt 5])
       (SList [SStr ''kind_a'', SStr ''value'']) [(''value'', TInt)] = Inr [(''value'', VInt 5)]"
    "from_json ''Tagged'' (SList [SStr ''kind_a'', SStr ''value'']) [(''value'', TInt)]
       (JList [JStr ''kind_a'', JInt 5])
     = Inr (VObj ''Tagged'' (SList [SStr ''kind_a'', SStr ''value''])
              [(''value'', TInt)] [(''value'', VInt 5)])"
    by blast+
  from literal_discrimination [OF b1 b2, of "''Tagged''"] b3
  have reject: "from_json ''Tagged'' (SList [SStr ''kind_a'', SStr ''value''])
       [(''value'', TLiteral [LInt 1])] (JList [JStr ''kind_a'', JInt 5])
     = Inl LiteralSetMismatch"
    by blast
  show ?thesis using accept reject by blast
qed

subsection \<open>Merging the bindings of sibling sub-schemas\<close>

lemma map_of_dict_update:
  "map_of (dict_update d m) = map_of d ++ map_of (rev m)"
  unfolding dict_update_def
proof (induction m arbitrary: d)
  case Nil
  show ?case by simp
next
  case (Cons kv m)
  have step: "map_of (AList.update (fst kv) (snd kv) d) = map_of d ++ map_of [kv]"
    by (cases kv) (simp add: update_conv' map_add_def fun_eq_iff)
  have "map_of (fold (\<lambda>kv. AList.update (fst kv) (snd kv)) (kv # m) d) =
        map_of (AList.update (fst kv) (snd kv) d) ++ map_of (rev m)"
    using Cons.IH [of "AList.update (fst kv) (snd kv) d"] by simp
  also have "\<dots> = map_of d ++ (map_of [kv] ++ map_of (rev m))"
    by (simp only: step map_add_assoc)
  also have "map_of [kv] ++ map_of (rev m) = map_of (rev (kv # m))"
    by (simp only: rev.simps map_of_append)
  finally show ?case .
qed

lemma distinct_dict_update:
  "distinct (map fst d) \<Longrightarrow> distinct (map fst (dict_update d m))"
  unfolding dict_update_def
  by (induction m arbitrary: d) (simp_all add: distinct_update)

lemma distinct_dict_ChainMap: "distinct (map fst (dict_ChainMap ms))"
  by (induction ms) (simp_all add: distinct_dict_update)

lemma distinct_from_json_with_match:
  "from_json_with_match j sch fields = Inr b \<Longrightarrow> distinct (map fst b)"
  by (cases sch) (auto simp: distinct_dict_ChainMap split: sum.splits option.splits if_splits)

lemma map_of_rev_distinct:
  "distinct (map fst m) \<Longrightarrow> map_of (rev m) = map_of m"
  by (simp add: map_of_inject_set rev_map [symmetric])

lemma dict_ChainMap_first:
  "\<lbrakk>i < length ms; map_of (ms ! i) k = Some v; \<forall>i'<i. map_of (ms ! i') k = None;
    \<forall>m\<in>set ms. distinct (map fst m)\<rbrakk>
   \<Longrightarrow> map_of (dict_ChainMap ms) k = Some v"
proof (induction ms arbitrary: i)
  case Nil
  then show ?case by simp
next
  case (Cons m ms)
  have dm: "map_of (rev m) = map_of m"
    using Cons.prems(4) by (simp add: map_of_rev_distinct)
  show ?case
  proof (cases i)
    case 0
    then show ?thesis using Cons.prems(2) by (simp add: map_of_dict_update dm map_add_def)
  next
    case (Suc n)
    have none: "map_of m k = None" using Cons.prems(3) Suc by auto
    have "map_of (dict_ChainMap ms) k = Some v"
    proof (rule Cons.IH [of n])
      show "n < length ms" using Cons.prems(1) Suc by simp
      show "map_of (ms ! n) k = Some v" using Cons.prems(2) Suc by simp
      show "\<forall>i'<n. map_of (ms ! i') k = None"
      proof (intro allI impI)
        fix i' assume "i' < n"
        then have "Suc i' < i" using Suc by simp
        then have "map_of ((m # ms) ! Suc i') k = None" using Cons.prems(3) by blast
        then show "map_of (ms ! i') k = None" by simp
      qed
      show "\<forall>m\<in>set ms. distinct (map fst m)" using Cons.prems(4) by simp
    qed
    then show ?thesis by (simp add: map_of_dict_update dm map_add_def none)
  qed
qed

lemma match_zip_nth:
  "match_zip js subs fields = Inr bs \<Longrightarrow>
     length bs = min (length js) (length subs) \<and>
     (\<forall>i<length bs. from_json_with_match (js ! i) (subs ! i) fields = Inr (bs ! i))"
proof (induction js arbitrary: subs bs)
  case Nil
  then show ?case by simp
next
  case (Cons j js)
  show ?case
  proof (cases subs)
    case Nil
    then show ?thesis using Cons.prems by simp
  next
    case (Cons sub subs')
    from Cons.prems Cons obtain b bs' where
      b: "from_json_with_match j sub fields = Inr b" and
      bs': "match_zip js subs' fields = Inr bs'" and
      eq: "bs = b # bs'"
      by (auto split: sum.splits)
    from Cons.IH [OF bs'] have ih:
      "length bs' = min (length js) (length subs')"
      "\<forall>i<length bs'. from_json_with_match (js ! i) (subs' ! i) fields = Inr (bs' ! i)"
      by simp_all
    show ?thesis
    proof (intro conjI allI impI)
      show "length bs = min (length (j # js)) (length subs)"
        using ih(1) eq Cons by simp
    next
      fix i assume "i < length bs"
      then show "from_json_with_match ((j # js) ! i) (subs ! i) fields = Inr (bs ! i)"
        using ih(2) b eq Cons by (cases i) simp_all
    qed
  qed
qed

text \<open>
  Claim C7. When the matcher succeeds on a sequence schema and the sub-schema at
  position \<open>i\<close> binds the name \<open>k\<close> to \<open>v\<close> while no sub-schema before it binds \<open>k\<close>,
  the mapping it returns has \<open>v\<close> under \<open>k\<close>, whatever the later sub-schemas bind:
  \<open>ChainMap\<close> looks a key up in its first map that has it.
\<close>

theorem earliest_sibling_binding_wins:
  assumes whole: "from_json_with_match j (SList subs) fields = Inr b"
    and iter: "py_iter j = Inr js"
    and i: "i < length js" "i < length subs"
    and sub: "from_json_with_match (js ! i) (subs ! i) fields = Inr bi"
    and bound: "map_of bi k = Some v"
    and earlier: "\<forall>i'<i. \<forall>b'. from_json_with_match (js ! i') (subs ! i') fields = Inr b'
                    \<longrightarrow> map_of b' k = None"
  shows "map_of b k = Some v"
proof -
  from whole iter obtain bs where
    bs: "match_zip js subs fields = Inr bs" and b: "b = dict_ChainMap bs"
    by (auto split: sum.splits)
  from match_zip_nth [OF bs] have
    len: "length bs = min (length js) (length subs)" and
    nth: "\<forall>n<length bs. from_json_with_match (js ! n) (subs ! n) fields = Inr (bs ! n)"
    by simp_all
  have ilen: "i < length bs" using i len by simp
  have bi: "bs ! i = bi" using nth ilen sub by auto
  have "map_of (dict_ChainMap bs) k = Some v"
  proof (rule dict_ChainMap_first [of i])
    show "i < length bs" by (rule ilen)
    show "map_of (bs ! i) k = Some v" using bi bound by simp
    show "\<forall>i'<i. map_of (bs ! i') k = None"
    proof (intro allI impI)
      fix i' assume lt: "i' < i"
      then have "from_json_with_match (js ! i') (subs ! i') fields = Inr (bs ! i')"
        using nth ilen by simp
      then show "map_of (bs ! i') k = None" using earlier lt by blast
    qed
    show "\<forall>m\<in>set bs. distinct (map fst m)"
    proof
      fix m assume "m \<in> set bs"
      then obtain n where n: "n < length bs" "bs ! n = m" by (auto simp: in_set_conv_nth)
      then have "from_json_with_match (js ! n) (subs ! n) fields = Inr m" using nth by auto
      then show "distinct (map fst m)" by (rule distinct_from_json_with_match)
    qed
  qed
  then show ?thesis using b by simp
qed

theorem earliest_sibling_binding_wins_witness:
  "from_json_with_match (JList [JStr ''tag'', JInt 1, JInt 2])
     (SList [SStr ''tag'', SStr ''a'', SStr ''a'']) [(''a'', TInt)] = Inr [(''a'', VInt 1)]
   \<and> from_json_with_match (JInt 2) (SStr ''a'') [(''a'', TInt)] = Inr [(''a'', VInt 2)]
   \<and> map_of [(''a'', VInt 1)] ''a'' = Some (VInt 1)"
proof -
  let ?js = "[JStr ''tag'', JInt 1, JInt 2]"
  let ?subs = "[SStr ''tag'', SStr ''a'', SStr ''a'']"
  let ?fields = "[(''a'', TInt)]"
  let ?b = "dict_ChainMap [[], [(''a'', VInt 1)], [(''a'', VInt 2)]]"
  have whole: "from_json_with_match (JList ?js) (SList ?subs) ?fields = Inr ?b" by simp
  have iter: "py_iter (JList ?js) = Inr ?js" by simp
  have i: "(1::nat) < length ?js" "(1::nat) < length ?subs" by simp_all
  have sub: "from_json_with_match (?js ! 1) (?subs ! 1) ?fields = Inr [(''a'', VInt 1)]" by simp
  have bound: "map_of [(''a'', VInt 1)] ''a'' = Some (VInt 1)" by simp
  have earlier: "\<forall>i'<(1::nat). \<forall>b'. from_json_with_match (?js ! i') (?subs ! i') ?fields = Inr b'
                    \<longrightarrow> map_of b' ''a'' = None" by auto
  have later: "from_json_with_match (JInt 2) (SStr ''a'') ?fields = Inr [(''a'', VInt 2)]" by simp
  have val: "?b = [(''a'', VInt 1)]" by (simp add: dict_update_def)
  from earliest_sibling_binding_wins [OF whole iter i sub bound earlier]
  have "map_of ?b ''a'' = Some (VInt 1)" .
  then show ?thesis using whole later val by simp
qed

text \<open>
  Claim C2. An integer or boolean leaf of the schema is not compared with the JSON
  value: the branch of lines 98-99 returns the empty mapping for every value, so
  \<open>from_json\<close> of the schema \<open>[1, "value"]\<close> accepts \<open>[2, 5]\<close>, and \<open>to_json\<close> of the
  instance it builds gives \<open>[1, 5]\<close>.
\<close>

theorem int_literal_leaf_unchecked:
  "from_json_with_match j (SInt i) fields = Inr []
   \<and> from_json_with_match j (SBool b) fields = Inr []
   \<and> from_json ''Tagged'' (SList [SInt 1, SStr ''value'']) [(''value'', TInt)]
         (JList [JInt 2, JInt 5])
       = Inr (VObj ''Tagged'' (SList [SInt 1, SStr ''value'']) [(''value'', TInt)]
                [(''value'', VInt 5)])
   \<and> to_json (VObj ''Tagged'' (SList [SInt 1, SStr ''value'']) [(''value'', TInt)]
                [(''value'', VInt 5)])
       = Inr (JList [JInt 1, JInt 5])"
  by (simp add: from_json_def construct_def dict_update_def)

text \<open>
  Claim C3. The matcher pairs the JSON value with the sub-schemas by \<open>zip\<close> and never
  compares their lengths: with the schema \<open>["kind_a", "value"]\<close> the 3-element array
  \<open>["kind_a", 5, "extra"]\<close> is accepted and its last element ignored, and with the
  schema \<open>["value", "kind_a"]\<close> the 1-element array \<open>[5]\<close> is accepted, the literal
  never being looked at.
\<close>

theorem sequence_schema_length_unchecked:
  "from_json_with_match (JList [JStr ''kind_a'', JInt 5, JStr ''extra''])
     (SList [SStr ''kind_a'', SStr ''value'']) [(''value'', TInt)] = Inr [(''value'', VInt 5)]
   \<and> from_json ''Tagged'' (SList [SStr ''kind_a'', SStr ''value'']) [(''value'', TInt)]
         (JList [JStr ''kind_a'', JInt 5, JStr ''extra''])
       = Inr (VObj ''Tagged'' (SList [SStr ''kind_a'', SStr ''value'']) [(''value'', TInt)]
                [(''value'', VInt 5)])
   \<and> from_json_with_match (JList [JInt 5])
     (SList [SStr ''value'', SStr ''kind_a'']) [(''value'', TInt)] = Inr [(''value'', VInt 5)]
   \<and> from_json ''Tagged'' (SList [SStr ''value'', SStr ''kind_a'']) [(''value'', TInt)]
         (JList [JInt 5])
       = Inr (VObj ''Tagged'' (SList [SStr ''value'', SStr ''kind_a'']) [(''value'', TInt)]
                [(''value'', VInt 5)])"
  by (simp add: from_json_def construct_def dict_update_def)

section \<open>Tuples and the round trip\<close>

text \<open>
  What the generator of the tuple branch would yield: when iterating it raises
  nothing, it yields as many values as there are element types, the one at position
  \<open>i\<close> being the coercion of the array's element \<open>i\<close> against the element type \<open>i\<close>.
\<close>

lemma gen_items_zip_nth:
  "gen_items (zip js ts) = Inr vs \<Longrightarrow>
     length vs = min (length js) (length ts) \<and>
     (\<forall>i<length vs. field_from_json (js ! i) (ts ! i) = Inr (vs ! i))"
proof (induction js arbitrary: ts vs)
  case Nil
  then show ?case by simp
next
  case (Cons j js)
  show ?case
  proof (cases ts)
    case Nil
    then show ?thesis using Cons.prems by simp
  next
    case (Cons t ts')
    from Cons.prems Cons obtain v vs' where
      v: "field_from_json j t = Inr v" and
      vs': "gen_items (zip js ts') = Inr vs'" and
      eq: "vs = v # vs'"
      by (auto split: sum.splits)
    from Cons.IH [OF vs'] have ih:
      "length vs' = min (length js) (length ts')"
      "\<forall>i<length vs'. field_from_json (js ! i) (ts' ! i) = Inr (vs' ! i)"
      by simp_all
    show ?thesis
    proof (intro conjI allI impI)
      show "length vs = min (length (j # js)) (length ts)"
        using ih(1) eq Cons by simp
    next
      fix i assume "i < length vs"
      then show "field_from_json ((j # js) ! i) (ts ! i) = Inr (vs ! i)"
        using ih(2) v eq Cons by (cases i) simp_all
    qed
  qed
qed

text \<open>
  Claim C4. Coercing an array against \<open>Tuple[...]\<close> returns the generator object of
  the generator expression of lines 74-75, not a sequence: for \<open>[1, 2]\<close> against
  \<open>Tuple[int, int]\<close> no element has been coerced when the call returns, and for \<open>[5]\<close>
  against \<open>Tuple[Literal[0]]\<close> the call returns although coercing the element raises
  (the generator raises when it is iterated).
\<close>

theorem tuple_coercion_returns_generator:
  "field_from_json (JList [JInt 1, JInt 2]) (TTuple [TInt, TInt])
     = Inr (VGen [(JInt 1, TInt), (JInt 2, TInt)])
   \<and> field_from_json (JList [JInt 5]) (TTuple [TLiteral [LInt 0]])
     = Inr (VGen [(JInt 5, TLiteral [LInt 0])])
   \<and> field_from_json (JInt 5) (TLiteral [LInt 0]) = Inl LiteralSetMismatch
   \<and> gen_items [(JInt 5, TLiteral [LInt 0])] = Inl LiteralSetMismatch"
  by simp

text \<open>
  Claim C1. The round trip fails on a record with a tuple field: for the class
  \<open>Pair\<close> with the schema \<open>["pair"]\<close> and the field \<open>pair: Tuple[int, int]\<close>, the
  instance \<open>x\<close> with \<open>pair = (1, 2)\<close> serialises to \<open>[[1, 2]]\<close>, and \<open>from_json\<close> of
  that builds an instance whose \<open>pair\<close> is a generator object, which is not equal to
  \<open>x\<close>; \<open>to_json\<close> of the rebuilt instance raises.
\<close>

theorem tuple_field_round_trip_fails:
  "to_json (VObj ''Pair'' (SList [SStr ''pair'']) [(''pair'', TTuple [TInt, TInt])]
              [(''pair'', VTuple [VInt 1, VInt 2])])
     = Inr (JList [JList [JInt 1, JInt 2]])
   \<and> from_json ''Pair'' (SList [SStr ''pair'']) [(''pair'', TTuple [TInt, TInt])]
         (JList [JList [JInt 1, JInt 2]])
     = Inr (VObj ''Pair'' (SList [SStr ''pair'']) [(''pair'', TTuple [TInt, TInt])]
              [(''pair'', VGen [(JInt 1, TInt), (JInt 2, TInt)])])
   \<and> \<not> py_eq (VObj ''Pair'' (SList [SStr ''pair'']) [(''pair'', TTuple [TInt, TInt])]
                 [(''pair'', VGen [(JInt 1, TInt), (JInt 2, TInt)])])
               (VObj ''Pair'' (SList [SStr ''pair'']) [(''pair'', TTuple [TInt, TInt])]
                 [(''pair'', VTuple [VInt 1, VInt 2])])
   \<and> to_json (VObj ''Pair'' (SList [SStr ''pair'']) [(''pair'', TTuple [TInt, TInt])]
              [(''pair'', VGen [(JInt 1, TInt), (JInt 2, TInt)])])
     = Inl AttributeError"
  by (simp add: from_json_def construct_def dict_update_def)

subsection \<open>Where the round trip holds\<close>

text \<open>
  For an instance that conforms to its class, \<open>to_json\<close> succeeds and \<open>from_json\<close>
  of its result rebuilds the instance. The proof goes through the schema: each leaf
  binds what it rendered, and the merged mapping is looked up by the constructor.
\<close>

lemma list_round_trip:
  "\<forall>v\<in>set vs. \<exists>j. fields_to_json v = Inr j \<and> field_from_json j t = Inr v \<Longrightarrow>
   \<exists>js. fields_to_json_list vs = Inr js \<and> list_from_json js t = Inr vs"
  by (induction vs) auto

lemma bound_by_Cons:
  "bound_by (sub # subs) fields vals = bound_by subs fields vals ++ bound_by [sub] fields vals"
  by (auto simp: bound_by_def map_add_def fun_eq_iff split: option.splits)

lemma sub_schemas_round_trip:
  assumes "\<forall>sub\<in>set subs. \<exists>j b. to_json_with_match sub fields vals = Inr j \<and>
             from_json_with_match j sub fields = Inr b \<and> map_of b = bound_by [sub] fields vals"
  shows "\<exists>js bs. to_json_with_match_list subs fields vals = Inr js \<and>
           match_zip js subs fields = Inr bs \<and>
           map_of (dict_ChainMap bs) = bound_by subs fields vals"
  using assms
proof (induction subs)
  case Nil
  show ?case by (simp add: bound_by_def fun_eq_iff)
next
  case (Cons sub subs)
  have "\<exists>j b. to_json_with_match sub fields vals = Inr j \<and>
          from_json_with_match j sub fields = Inr b \<and> map_of b = bound_by [sub] fields vals"
    using Cons.prems by simp
  then obtain j b where
    j: "to_json_with_match sub fields vals = Inr j" and
    b: "from_json_with_match j sub fields = Inr b" and
    mb: "map_of b = bound_by [sub] fields vals"
    by blast
  have "\<forall>sub\<in>set subs. \<exists>j b. to_json_with_match sub fields vals = Inr j \<and>
          from_json_with_match j sub fields = Inr b \<and> map_of b = bound_by [sub] fields vals"
    using Cons.prems by simp
  from Cons.IH [OF this] obtain js bs where
    js: "to_json_with_match_list subs fields vals = Inr js" and
    bs: "match_zip js subs fields = Inr bs" and
    mbs: "map_of (dict_ChainMap bs) = bound_by subs fields vals"
    by blast
  have rb: "map_of (rev b) = map_of b"
    using distinct_from_json_with_match [OF b] by (rule map_of_rev_distinct)
  have "map_of (dict_ChainMap (b # bs)) = map_of (dict_ChainMap bs) ++ map_of (rev b)"
    by (simp add: map_of_dict_update)
  also have "\<dots> = bound_by subs fields vals ++ bound_by [sub] fields vals"
    by (simp only: rb mbs mb)
  also have "\<dots> = bound_by (sub # subs) fields vals"
    by (rule bound_by_Cons [symmetric])
  finally have "map_of (dict_ChainMap (b # bs)) = bound_by (sub # subs) fields vals" .
  moreover have "to_json_with_match_list (sub # subs) fields vals = Inr (j # js)"
    using j js by simp
  moreover have "match_zip (j # js) (sub # subs) fields = Inr (b # bs)"
    using b bs by simp
  ultimately show ?case by blast
qed

lemma schema_round_trip:
  assumes leaf: "\<And>k t. map_of fields k = Some t \<Longrightarrow>
            \<exists>v j. map_of vals k = Some v \<and> fields_to_json v = Inr j \<and> field_from_json j t = Inr v"
  shows "schema_ok sch \<Longrightarrow>
         \<exists>j b. to_json_with_match sch fields vals = Inr j \<and>
               from_json_with_match j sch fields = Inr b \<and>
               map_of b = bound_by [sch] fields vals"
proof (induction sch)
  case (SList subs)
  have "\<forall>sub\<in>set subs. \<exists>j b. to_json_with_match sub fields vals = Inr j \<and>
             from_json_with_match j sub fields = Inr b \<and> map_of b = bound_by [sub] fields vals"
    using SList by (auto simp: list_all_iff)
  from sub_schemas_round_trip [OF this] obtain js bs where
    js: "to_json_with_match_list subs fields vals = Inr js" and
    bs: "match_zip js subs fields = Inr bs" and
    mbs: "map_of (dict_ChainMap bs) = bound_by subs fields vals"
    by blast
  have "bound_by [SList subs] fields vals = bound_by subs fields vals"
    by (simp add: bound_by_def fun_eq_iff)
  then show ?case using js bs mbs by simp
next
  case (SStr s)
  show ?case
  proof (cases "map_of fields s")
    case None
    then show ?thesis by (simp add: bound_by_def fun_eq_iff)
  next
    case (Some t)
    from leaf [OF Some] obtain v j where
      "map_of vals s = Some v" "fields_to_json v = Inr j" "field_from_json j t = Inr v"
      by blast
    then show ?thesis using Some by (simp add: bound_by_def fun_eq_iff)
  qed
next
  case (SInt i)
  show ?case by (simp add: bound_by_def fun_eq_iff)
next
  case (SBool b)
  show ?case by (simp add: bound_by_def fun_eq_iff)
next
  case SOther
  then show ?case by simp
qed

lemma init_fields_rebuilds:
  "\<lbrakk>distinct (map fst fields); map fst vals = map fst fields;
    \<forall>k\<in>set (map fst fields). map_of b k = map_of vals k\<rbrakk>
   \<Longrightarrow> init_fields fields b = Inr vals"
proof (induction fields arbitrary: vals)
  case Nil
  then show ?case by simp
next
  case (Cons f fs)
  from Cons.prems(2) obtain w ws where vals: "vals = w # ws" and
    w: "fst w = fst f" and ws: "map fst ws = map fst fs"
    by (cases vals) auto
  have notin: "fst f \<notin> set (map fst fs)" and dist: "distinct (map fst fs)"
    using Cons.prems(1) by simp_all
  have "\<forall>k\<in>set (map fst fs). map_of b k = map_of ws k"
  proof
    fix k assume k: "k \<in> set (map fst fs)"
    then have "k \<noteq> fst w" using notin w by force
    then show "map_of b k = map_of ws k" using Cons.prems(3) k vals by (cases w) auto
  qed
  from Cons.IH [OF dist ws this] have "init_fields fs b = Inr ws" .
  moreover have "map_of b (fst f) = Some (snd w)"
    using Cons.prems(3) vals w by (cases w) auto
  ultimately show ?case using vals w by (cases w) auto
qed

lemma conforming_round_trip:
  "conforms v t \<Longrightarrow> \<exists>j. fields_to_json v = Inr j \<and> field_from_json j t = Inr v"
proof (induction rule: conforms.induct)
  case (c_list vs t)
  then have "\<forall>v\<in>set vs. \<exists>j. fields_to_json v = Inr j \<and> field_from_json j t = Inr v" by blast
  from list_round_trip [OF this] show ?case by auto
next
  case (c_union i ts v j)
  then have "field_from_json j (ts ! i) = Inr v" by auto
  moreover then have "union_from_json j ts = field_from_json j (ts ! i)"
    using c_union by (intro union_from_json_first) auto
  ultimately show ?case using c_union by auto
next
  case (c_record sch fields vals name)
  have leaf: "\<exists>v j. map_of vals k = Some v \<and> fields_to_json v = Inr j \<and> field_from_json j t = Inr v"
    if "map_of fields k = Some t" for k t
  proof -
    from that have "(k, t) \<in> set fields" by (rule map_of_SomeD)
    then obtain i where i: "i < length fields" "fields ! i = (k, t)"
      by (auto simp: in_set_conv_nth)
    have len: "length vals = length fields"
      using c_record(3) by (metis length_map)
    have "fst (vals ! i) = k"
      using c_record(3) i len by (metis fst_conv nth_map)
    moreover have "vals ! i \<in> set vals" using i len by simp
    moreover have "distinct (map fst vals)" using c_record(2,3) by simp
    ultimately have "map_of vals k = Some (snd (vals ! i))"
      by (metis map_of_is_SomeI prod.collapse)
    moreover have "\<exists>j. fields_to_json (snd (vals ! i)) = Inr j \<and>
                       field_from_json j t = Inr (snd (vals ! i))"
      using c_record(5) i by auto
    ultimately show ?thesis by blast
  qed
  from schema_round_trip [of fields vals sch, OF leaf c_record(1)] obtain j b where
    j: "to_json_with_match sch fields vals = Inr j" and
    b: "from_json_with_match j sch fields = Inr b" and
    mb: "map_of b = bound_by [sch] fields vals"
    by blast
  have keys: "list_all (\<lambda>k. map_of fields k \<noteq> None) (map fst b)"
  proof -
    have "map_of fields k \<noteq> None" if "k \<in> set (map fst b)" for k
    proof -
      from that have "map_of b k \<noteq> None" by (simp add: map_of_eq_None_iff)
      then show ?thesis using mb by (auto simp: bound_by_def split: if_splits)
    qed
    then show ?thesis by (simp add: list_all_iff)
  qed
  have "\<forall>k\<in>set (map fst fields). map_of b k = map_of vals k"
  proof
    fix k assume k: "k \<in> set (map fst fields)"
    then have "map_of fields k \<noteq> None" by (simp add: map_of_eq_None_iff)
    moreover have "k \<in> set (schema_strs sch)" using c_record(4) k by auto
    ultimately show "map_of b k = map_of vals k" using mb by (simp add: bound_by_def)
  qed
  from init_fields_rebuilds [OF c_record(2,3) this] have "init_fields fields b = Inr vals" .
  then have "construct name sch fields b = Inr (VObj name sch fields vals)"
    using keys by (simp add: construct_def)
  then show ?case using j b by simp
next
  case (c_lit_str s args)
  then have "list_ex (py_eq_lit (JStr s)) args" by (force simp: list_ex_iff)
  then show ?case by simp
next
  case (c_lit_int i args)
  then have "list_ex (py_eq_lit (JInt i)) args" by (force simp: list_ex_iff)
  then show ?case by simp
next
  case (c_lit_bool b args)
  then have "list_ex (py_eq_lit (JBool b)) args" by (force simp: list_ex_iff)
  then show ?case by simp
qed simp_all


lemma py_eq_list_refl: "\<forall>v\<in>set vs. py_eq v v \<Longrightarrow> py_eq_list vs vs"
  by (induction vs) simp_all

lemma py_eq_fields_refl: "\<forall>f\<in>set vals. py_eq (snd f) (snd f) \<Longrightarrow> py_eq_fields vals vals"
  by (induction vals) simp_all

lemma conforms_py_eq_refl: "conforms v t \<Longrightarrow> py_eq v v"
proof (induction rule: conforms.induct)
  case (c_list vs t)
  then show ?case by (simp add: py_eq_list_refl)
next
  case (c_record sch fields vals name)
  have len: "length vals = length fields"
    using c_record(3) by (metis length_map)
  have "\<forall>f\<in>set vals. py_eq (snd f) (snd f)"
  proof
    fix f assume "f \<in> set vals"
    then obtain i where "i < length vals" "vals ! i = f" by (auto simp: in_set_conv_nth)
    then show "py_eq (snd f) (snd f)" using c_record(5) len by auto
  qed
  then show ?case by (simp add: py_eq_fields_refl)
qed simp_all

lemma conforming_instance_round_trip:
  assumes "conforms x (TRecord name sch fields)"
  shows "\<exists>j y. to_json x = Inr j \<and> from_json name sch fields j = Inr y \<and> py_eq y x"
proof -
  from assms obtain vals where x: "x = VObj name sch fields vals"
    by (auto elim: conforms.cases)
  from conforming_round_trip [OF assms] obtain j where
    "fields_to_json x = Inr j" "field_from_json j (TRecord name sch fields) = Inr x"
    by blast
  then have "to_json x = Inr j" "from_json name sch fields j = Inr x"
    using x by (simp_all add: from_json_def)
  then show ?thesis using conforms_py_eq_refl [OF assms] by blast
qed

lemma conforming_instance_example:
  "conforms (VObj ''Bag'' (SList [SStr ''bag'', SStr ''items'']) [(''items'', TList TInt)]
              [(''items'', VList [VInt 1, VInt 2, VInt 3])])
     (TRecord ''Bag'' (SList [SStr ''bag'', SStr ''items'']) [(''items'', TList TInt)])"
proof (rule c_record)
  show "\<forall>i<length [(''items'', TList TInt)].
          conforms (snd ([(''items'', VList [VInt 1, VInt 2, VInt 3])] ! i))
            (snd ([(''items'', TList TInt)] ! i))"
    by (auto intro!: c_list c_int)
qed simp_all

end
